theory Spec2Isabelle
  imports Main "HOL-Library.AList"
begin

section \<open>The CALIMA Star reinflector\<close>

text \<open>
  A shallow embedding of \<^verbatim>\<open>camel_tools/calima_star/reinflector.py\<close>: the class
  \<^verbatim>\<open>CalimaStarReinflector\<close> with its constructor and its method \<^verbatim>\<open>reinflect\<close>.

  A Python \<^verbatim>\<open>dict\<close> from strings to strings is an association list in insertion
  order: \<^verbatim>\<open>d[k]\<close> is \<open>map_of d k\<close> (\<open>None\<close> is Python's \<^verbatim>\<open>KeyError\<close>),
  \<^verbatim>\<open>k in d\<close> is \<open>map_of d k \<noteq> None\<close>, iterating \<^verbatim>\<open>d\<close> or \<^verbatim>\<open>d.keys()\<close> runs over
  \<open>map fst d\<close>, and \<^verbatim>\<open>d[k] = v\<close> is \<open>AList.update k v d\<close>, which overwrites in place
  or appends, as Python does. Strings are byte strings (UTF-8); the two separators
  of the lemma split are ASCII, so splitting bytes splits code points.
\<close>

type_synonym dict = "(string \<times> string) list"

subsection \<open>Module constants\<close>

definition CLITIC_FEATS :: "string set" where
  "CLITIC_FEATS = {''enc0'', ''prc0'', ''prc1'', ''prc2'', ''prc3''}"

definition IGNORED_FEATS :: "string set" where
  "IGNORED_FEATS = {''diac'', ''lex'', ''bw'', ''gloss'', ''source'', ''stem'',
                    ''stemcat'', ''lmm'', ''dediac'', ''caphi'', ''catib6'',
                    ''ud'', ''d3seg'', ''atbseg'', ''d2seg'', ''d1seg'', ''d1tok'',
                    ''d2tok'', ''atbtok'', ''d3tok'', ''root'', ''pattern'',
                    ''freq'', ''POS_prob'', ''stemgloss''}"

definition SPECIFIED_FEATS :: "string set" where
  "SPECIFIED_FEATS = {''form_gen'', ''form_num''}"

definition CLITIC_IGNORED_FEATS :: "string set" where
  "CLITIC_IGNORED_FEATS = {''stt'', ''cas'', ''mod''}"

text \<open>
  \<^verbatim>\<open>_LEMMA_SPLIT_RE = re.compile(r'-|_')\<close> and its \<^verbatim>\<open>split\<close>: the pieces of the
  string between the separators, empty pieces included; the result is never empty.
\<close>

fun LEMMA_SPLIT_RE_split :: "string \<Rightarrow> string list" where
  "LEMMA_SPLIT_RE_split [] = [[]]"
| "LEMMA_SPLIT_RE_split (c # cs) =
     (if c = CHR ''-'' \<or> c = CHR ''_'' then [] # LEMMA_SPLIT_RE_split cs
      else (case LEMMA_SPLIT_RE_split cs of
              [] \<Rightarrow> [[c]]
            | s # ss \<Rightarrow> (c # s) # ss))"

subsection \<open>Errors\<close>

text \<open>
  The three exception classes the module imports and raises, with their arguments,
  and the two built-in exceptions that a subscript can raise.
\<close>

datatype error =
    ReinflectorError string
  | InvalidReinflectorFeature string
  | InvalidReinflectorFeatureValue string string
  | KeyError string
  | IndexError

subsection \<open>The database and the instance\<close>

text \<open>
  Of \<^verbatim>\<open>CalimaStarDB\<close> the module reads \<^verbatim>\<open>db.flags.generation\<close> and \<^verbatim>\<open>db.defines\<close>
  (the field \<open>db_defines\<close>, as \<open>defines\<close> is reserved),
  a dictionary from a feature name to \<^verbatim>\<open>None\<close> or to the collection of its values.
  The analyzer and the generator are the two collaborators built from the database;
  \<^verbatim>\<open>analyze\<close> returns a list of analyses (each a dictionary) or nothing, and
  \<^verbatim>\<open>generate\<close> returns a list of generated forms or \<^verbatim>\<open>None\<close>. Both are functions
  of their arguments. The type \<open>'g\<close> of a generated form is left open.
\<close>

record db_flags =
  generation :: bool

record calima_star_db =
  flags :: db_flags
  db_defines :: "string \<rightharpoonup> string list option"

datatype py_object = CalimaStarDB calima_star_db | OtherObject

type_synonym analyzer_t = "string \<Rightarrow> dict list option"
type_synonym 'g generator_t = "string \<Rightarrow> dict \<Rightarrow> 'g list option"

record 'g reinflector =
  db :: calima_star_db
  analyzer :: analyzer_t
  generator :: "'g generator_t"

text \<open>
  \<^verbatim>\<open>__init__\<close>. The constructors of the analyzer and the generator are parameters;
  each may raise.
\<close>

definition init ::
  "(calima_star_db \<Rightarrow> error + analyzer_t) \<Rightarrow> (calima_star_db \<Rightarrow> error + 'g generator_t) \<Rightarrow>
   py_object \<Rightarrow> error + 'g reinflector" where
  "init CalimaStarAnalyzer CalimaStarGenerator obj =
     (case obj of
        OtherObject \<Rightarrow> Inl (ReinflectorError ''DB is not an instance of CalimaStarDB'')
      | CalimaStarDB d \<Rightarrow>
          if \<not> generation (flags d) then Inl (ReinflectorError ''DB does not support reinflection'')
          else (case CalimaStarAnalyzer d of
                  Inl e \<Rightarrow> Inl e
                | Inr an \<Rightarrow>
                    (case CalimaStarGenerator d of
                       Inl e \<Rightarrow> Inl e
                     | Inr gen \<Rightarrow> Inr \<lparr>db = d, analyzer = an, generator = gen\<rparr>)))"

subsection \<open>The method reinflect\<close>

text \<open>
  The loop that validates the given features against \<^verbatim>\<open>db.defines\<close>, over the keys
  of \<^verbatim>\<open>feats\<close> in their order; \<open>None\<close> when no exception is raised.
\<close>

fun check_feats :: "(string \<rightharpoonup> string list option) \<Rightarrow> dict \<Rightarrow> string list \<Rightarrow> error option" where
  "check_feats dfs feats [] = None"
| "check_feats dfs feats (feat # rest) =
     (case dfs feat of
        None \<Rightarrow> Some (InvalidReinflectorFeature feat)
      | Some None \<Rightarrow> check_feats dfs feats rest
      | Some (Some vals) \<Rightarrow>
          (case map_of feats feat of
             None \<Rightarrow> Some (KeyError feat)
           | Some v \<Rightarrow>
               if v \<notin> set vals then Some (InvalidReinflectorFeatureValue feat v)
               else check_feats dfs feats rest))"

text \<open>
  The loop over \<^verbatim>\<open>_CLITIC_FEATS\<close>. Python fixes no order for the iteration of a
  frozenset, so the loop runs over a list that enumerates the set, in whatever
  order the interpreter yields it.
\<close>

fun has_clitics :: "dict \<Rightarrow> string list \<Rightarrow> bool" where
  "has_clitics feats [] = False"
| "has_clitics feats (feat # rest) =
     (if map_of feats feat \<noteq> None then True else has_clitics feats rest)"

text \<open>
  The head of the outer loop body, up to the three \<^verbatim>\<open>continue\<close> statements:
  \<open>Inr None\<close> is \<^verbatim>\<open>continue\<close>, \<open>Inr (Some lemma)\<close> goes on with the lemma.
\<close>

definition analysis_filter :: "(string \<Rightarrow> string) \<Rightarrow> string \<Rightarrow> dict \<Rightarrow> dict \<Rightarrow> error + string option" where
  "analysis_filter dediac_ar word feats analysis =
     (case map_of analysis ''diac'' of
        None \<Rightarrow> Inl (KeyError ''diac'')
      | Some diac \<Rightarrow>
          if dediac_ar diac \<noteq> dediac_ar word then Inr None
          else (case (case map_of feats ''pos'' of
                        None \<Rightarrow> Inr False
                      | Some fpos \<Rightarrow>
                          (case map_of analysis ''pos'' of
                             None \<Rightarrow> Inl (KeyError ''pos'')
                           | Some apos \<Rightarrow> Inr (fpos \<noteq> apos))) of
                  Inl e \<Rightarrow> Inl e
                | Inr True \<Rightarrow> Inr None
                | Inr False \<Rightarrow>
                    (case map_of analysis ''lex'' of
                       None \<Rightarrow> Inl (KeyError ''lex'')
                     | Some alex \<Rightarrow>
                         (case LEMMA_SPLIT_RE_split alex of
                            [] \<Rightarrow> Inl IndexError
                          | lemma # _ \<Rightarrow>
                              (case map_of feats ''lex'' of
                                 None \<Rightarrow> Inr (Some lemma)
                               | Some flex \<Rightarrow>
                                   if flex \<noteq> lemma then Inr None else Inr (Some lemma))))))"

text \<open>
  The inner loop over \<^verbatim>\<open>analysis.keys()\<close>, with \<^verbatim>\<open>generate_feats\<close> as accumulator:
  \<open>Inr None\<close> is the \<^verbatim>\<open>break\<close> with \<^verbatim>\<open>is_valid = False\<close>, \<open>Inr (Some generate_feats)\<close>
  the end of the loop with \<^verbatim>\<open>is_valid\<close> still true.
\<close>

fun merge_feats :: "dict \<Rightarrow> bool \<Rightarrow> dict \<Rightarrow> string list \<Rightarrow> dict \<Rightarrow> error + dict option" where
  "merge_feats feats hc analysis [] generate_feats = Inr (Some generate_feats)"
| "merge_feats feats hc analysis (feat # rest) generate_feats =
     (if feat \<in> IGNORED_FEATS then merge_feats feats hc analysis rest generate_feats
      else if feat \<in> SPECIFIED_FEATS \<and> map_of feats feat = None
        then merge_feats feats hc analysis rest generate_feats
      else if hc \<and> feat \<in> CLITIC_IGNORED_FEATS
        then merge_feats feats hc analysis rest generate_feats
      else (case map_of feats feat of
              Some fv \<Rightarrow>
                (case map_of analysis feat of
                   None \<Rightarrow> Inl (KeyError feat)
                 | Some av \<Rightarrow>
                     if av \<noteq> ''na''
                       then merge_feats feats hc analysis rest (AList.update feat fv generate_feats)
                     else Inr None)
            | None \<Rightarrow>
                (case map_of analysis feat of
                   None \<Rightarrow> Inl (KeyError feat)
                 | Some av \<Rightarrow>
                     if av \<noteq> ''na''
                       then merge_feats feats hc analysis rest (AList.update feat av generate_feats)
                     else merge_feats feats hc analysis rest generate_feats)))"

text \<open>
  The outer loop over the analyses. The state is \<^verbatim>\<open>results\<close> and, beside it, the
  list of the calls made to the generator so far, each with its two arguments. An
  exception leaves the loop with the calls made until then.
\<close>

type_synonym gen_call = "string \<times> dict"

fun analyses_loop ::
  "(string \<Rightarrow> string) \<Rightarrow> 'g generator_t \<Rightarrow> string \<Rightarrow> dict \<Rightarrow> bool \<Rightarrow> dict list \<Rightarrow>
   'g list \<Rightarrow> gen_call list \<Rightarrow> (error + 'g list) \<times> gen_call list" where
  "analyses_loop dediac_ar generate word feats hc [] results calls = (Inr results, calls)"
| "analyses_loop dediac_ar generate word feats hc (analysis # rest) results calls =
     (case analysis_filter dediac_ar word feats analysis of
        Inl e \<Rightarrow> (Inl e, calls)
      | Inr None \<Rightarrow> analyses_loop dediac_ar generate word feats hc rest results calls
      | Inr (Some lemma) \<Rightarrow>
          (case merge_feats feats hc analysis (map fst analysis) [] of
             Inl e \<Rightarrow> (Inl e, calls)
           | Inr None \<Rightarrow> analyses_loop dediac_ar generate word feats hc rest results calls
           | Inr (Some generate_feats) \<Rightarrow>
               (case generate lemma generate_feats of
                  None \<Rightarrow>
                    analyses_loop dediac_ar generate word feats hc rest
                      results (calls @ [(lemma, generate_feats)])
                | Some generated \<Rightarrow>
                    analyses_loop dediac_ar generate word feats hc rest
                      (results @ generated) (calls @ [(lemma, generate_feats)]))))"

text \<open>
  \<^verbatim>\<open>reinflect\<close>: the returned list or the exception raised, and the calls made to
  the generator. \<open>clitic_feats\<close> enumerates \<^verbatim>\<open>_CLITIC_FEATS\<close> in iteration order and
  \<open>dediac_ar\<close> is the imported diacritic remover.
\<close>

definition reinflect ::
  "(string \<Rightarrow> string) \<Rightarrow> string list \<Rightarrow> 'g reinflector \<Rightarrow> string \<Rightarrow> dict \<Rightarrow>
   (error + 'g list) \<times> gen_call list" where
  "reinflect dediac_ar clitic_feats self word feats =
     (case analyzer self word of
        None \<Rightarrow> (Inr [], [])
      | Some [] \<Rightarrow> (Inr [], [])
      | Some (a # as) \<Rightarrow>
          (case check_feats (db_defines (db self)) feats (map fst feats) of
             Some e \<Rightarrow> (Inl e, [])
           | None \<Rightarrow>
               analyses_loop dediac_ar (generator self) word feats
                 (has_clitics feats clitic_feats) (a # as) [] []))"

subsection \<open>The method over an explicit heap\<close>

text \<open>
  The same method with the mutable objects it can reach made explicit. The heap
  holds the database behind \<^verbatim>\<open>self._db\<close>, the dictionary object passed as \<^verbatim>\<open>feats\<close>,
  and whatever else the analyzer and the generator keep between calls. A call to
  \<^verbatim>\<open>analyze\<close> or \<^verbatim>\<open>generate\<close> takes the heap and returns the heap it leaves; the
  method reads \<^verbatim>\<open>feats\<close> and \<^verbatim>\<open>db.defines\<close> from the heap as it stands when the
  statement runs. The method itself has no assignment to an attribute of \<^verbatim>\<open>self\<close>, to
  an item of \<^verbatim>\<open>feats\<close> or of an analysis, or to a module variable:
  \<^verbatim>\<open>results\<close> and \<^verbatim>\<open>generate_feats\<close> are created afresh in each call and each
  iteration. So the heap changes only inside the two collaborators.
\<close>

record 'w heap =
  self_db :: calima_star_db
  feats_obj :: dict
  world :: 'w

type_synonym 'w analyze_st = "string \<Rightarrow> 'w heap \<Rightarrow> dict list option \<times> 'w heap"
type_synonym ('g, 'w) generate_st = "string \<Rightarrow> dict \<Rightarrow> 'w heap \<Rightarrow> 'g list option \<times> 'w heap"

fun analyses_loop_st ::
  "(string \<Rightarrow> string) \<Rightarrow> ('g, 'w) generate_st \<Rightarrow> string \<Rightarrow> bool \<Rightarrow> dict list \<Rightarrow>
   'g list \<Rightarrow> 'w heap \<Rightarrow> (error + 'g list) \<times> 'w heap" where
  "analyses_loop_st dediac_ar generate word hc [] results h = (Inr results, h)"
| "analyses_loop_st dediac_ar generate word hc (analysis # rest) results h =
     (case analysis_filter dediac_ar word (feats_obj h) analysis of
        Inl e \<Rightarrow> (Inl e, h)
      | Inr None \<Rightarrow> analyses_loop_st dediac_ar generate word hc rest results h
      | Inr (Some lemma) \<Rightarrow>
          (case merge_feats (feats_obj h) hc analysis (map fst analysis) [] of
             Inl e \<Rightarrow> (Inl e, h)
           | Inr None \<Rightarrow> analyses_loop_st dediac_ar generate word hc rest results h
           | Inr (Some generate_feats) \<Rightarrow>
               (case generate lemma generate_feats h of
                  (None, h') \<Rightarrow> analyses_loop_st dediac_ar generate word hc rest results h'
                | (Some generated, h') \<Rightarrow>
                    analyses_loop_st dediac_ar generate word hc rest (results @ generated) h')))"

definition reinflect_st ::
  "(string \<Rightarrow> string) \<Rightarrow> string list \<Rightarrow> 'w analyze_st \<Rightarrow> ('g, 'w) generate_st \<Rightarrow> string \<Rightarrow>
   'w heap \<Rightarrow> (error + 'g list) \<times> 'w heap" where
  "reinflect_st dediac_ar clitic_feats analyze generate word h =
     (case analyze word h of
        (None, h1) \<Rightarrow> (Inr [], h1)
      | (Some [], h1) \<Rightarrow> (Inr [], h1)
      | (Some (a # as), h1) \<Rightarrow>
          (case check_feats (db_defines (self_db h1)) (feats_obj h1) (map fst (feats_obj h1)) of
             Some e \<Rightarrow> (Inl e, h1)
           | None \<Rightarrow>
               analyses_loop_st dediac_ar generate word
                 (has_clitics (feats_obj h1) clitic_feats) (a # as) [] h1))"

subsection \<open>Notions of the specification\<close>

text \<open>
  The value the specification's merge rule gives a feature name: the four classes
  in their order of precedence, for a name the analysis has; nothing for any other
  name.
\<close>

definition merged_value :: "dict \<Rightarrow> bool \<Rightarrow> dict \<Rightarrow> string \<Rightarrow> string option" where
  "merged_value feats hc analysis feat =
     (case map_of analysis feat of
        None \<Rightarrow> None
      | Some av \<Rightarrow>
          if feat \<in> IGNORED_FEATS then None
          else if feat \<in> SPECIFIED_FEATS \<and> map_of feats feat = None then None
          else if hc \<and> feat \<in> CLITIC_IGNORED_FEATS then None
          else (case map_of feats feat of
                  Some fv \<Rightarrow> Some fv
                | None \<Rightarrow> if av \<noteq> ''na'' then Some av else None))"

text \<open>
  The three keys the analyzer guarantees in every analysis: the diacritized form,
  the part of speech and the lexeme identifier.
\<close>

definition has_required :: "dict \<Rightarrow> bool" where
  "has_required analysis =
     (map_of analysis ''diac'' \<noteq> None \<and> map_of analysis ''pos'' \<noteq> None
      \<and> map_of analysis ''lex'' \<noteq> None)"

text \<open>
  What one analysis adds to the result: the generator's output when the analysis
  passes the filter and the merge, and nothing otherwise.
\<close>

definition contribution ::
  "(string \<Rightarrow> string) \<Rightarrow> 'g generator_t \<Rightarrow> string \<Rightarrow> dict \<Rightarrow> bool \<Rightarrow> dict \<Rightarrow> 'g list" where
  "contribution dediac_ar generate word feats hc analysis =
     (case analysis_filter dediac_ar word feats analysis of
        Inr (Some lemma) \<Rightarrow>
          (case merge_feats feats hc analysis (map fst analysis) [] of
             Inr (Some generate_feats) \<Rightarrow>
               (case generate lemma generate_feats of
                  Some generated \<Rightarrow> generated
                | None \<Rightarrow> [])
           | _ \<Rightarrow> [])
      | _ \<Rightarrow> [])"


text \<open>
  The two ways a given feature can offend the schema: its name is not defined, or
  the schema gives the name a collection of values and the given value is not in it.
\<close>

definition unknown_feature :: "(string \<rightharpoonup> string list option) \<Rightarrow> string \<Rightarrow> bool" where
  "unknown_feature dfs feat = (dfs feat = None)"

definition invalid_value :: "(string \<rightharpoonup> string list option) \<Rightarrow> dict \<Rightarrow> string \<Rightarrow> bool" where
  "invalid_value dfs feats feat =
     (case dfs feat of
        Some (Some vals) \<Rightarrow>
          (case map_of feats feat of
             Some v \<Rightarrow> v \<notin> set vals
           | None \<Rightarrow> False)
      | _ \<Rightarrow> False)"

subsection \<open>A small lexicon\<close>

text \<open>
  A database, an analyzer and a generator to run the definitions on: one word with
  three analyses, a generator that returns its own arguments as the one form it
  generates, and a diacritic remover that deletes the short vowels and the gemination
  mark of the Buckwalter transliteration.
\<close>

definition ex_defines :: "string \<rightharpoonup> string list option" where
  "ex_defines =
     [''pos'' \<mapsto> Some [''noun'', ''verb''], ''lex'' \<mapsto> None, ''root'' \<mapsto> None,
      ''num'' \<mapsto> Some [''s'', ''p''],
      ''stt'' \<mapsto> Some [''d'', ''i'', ''na''], ''enc0'' \<mapsto> Some [''0'', ''3ms_poss''],
      ''asp'' \<mapsto> Some [''p'', ''i'', ''na'']]"

definition ex_kitAb :: dict where
  "ex_kitAb = [(''diac'', ''kitAb''), (''lex'', ''kitAb_1''), (''pos'', ''noun''),
               (''gen'', ''m''), (''num'', ''s''), (''stt'', ''na''), (''cas'', ''n''),
               (''enc0'', ''0''), (''asp'', ''na''), (''form_gen'', ''m'')]"

definition ex_kuttAb :: dict where
  "ex_kuttAb = [(''diac'', ''kut~Ab''), (''lex'', ''kAtib-2''), (''pos'', ''noun''),
                (''gen'', ''m''), (''num'', ''p''), (''root'', ''na'')]"

definition ex_katAb :: dict where
  "ex_katAb = [(''diac'', ''katAba''), (''lex'', ''katAb_1''), (''pos'', ''verb''),
               (''asp'', ''p'')]"

definition ex_analyzer :: analyzer_t where
  "ex_analyzer w = (if w = ''ktAb'' then Some [ex_kitAb, ex_kuttAb, ex_katAb] else None)"

definition ex_generator :: "gen_call generator_t" where
  "ex_generator lm generate_feats = Some [(lm, generate_feats)]"

definition ex_dediac :: "string \<Rightarrow> string" where
  "ex_dediac = filter (\<lambda>c. c \<noteq> CHR ''a'' \<and> c \<noteq> CHR ''i'' \<and> c \<noteq> CHR ''u'' \<and> c \<noteq> CHR ''~'')"

definition ex_db :: calima_star_db where
  "ex_db = \<lparr>flags = \<lparr>generation = True\<rparr>, db_defines = ex_defines\<rparr>"

definition ex_self :: "gen_call reinflector" where
  "ex_self = \<lparr>db = ex_db, analyzer = ex_analyzer, generator = ex_generator\<rparr>"

definition ex_clitic_feats :: "string list" where
  "ex_clitic_feats = [''enc0'', ''prc0'', ''prc1'', ''prc2'', ''prc3'']"

text \<open>
  The same lexicon over a heap: the analyzer reads its analyses from the heap, and
  both collaborators leave the heap as it is. A second generator records every form
  it generates as a new analysis in the heap.
\<close>

definition ex_heap :: "dict list heap" where
  "ex_heap = \<lparr>self_db = ex_db, feats_obj = [(''pos'', ''noun'')],
              world = [ex_kitAb, ex_kuttAb, ex_katAb]\<rparr>"

definition ex_analyze_st :: "dict list analyze_st" where
  "ex_analyze_st w h = (if w = ''ktAb'' then Some (world h) else None, h)"

definition ex_generate_st :: "(gen_call, dict list) generate_st" where
  "ex_generate_st lm generate_feats h = (Some [(lm, generate_feats)], h)"

definition ex_generate_learning :: "(gen_call, dict list) generate_st" where
  "ex_generate_learning lm generate_feats h =
     (Some [(lm, generate_feats)], h\<lparr>world := world h @ [(''diac'', lm) # (''lex'', lm) # generate_feats]\<rparr>)"

section \<open>Properties\<close>

subsection \<open>Conditionals\<close>

lemma if_thenD: "\<lbrakk>if C then A else B; C\<rbrakk> \<Longrightarrow> A"
  by simp

lemma if_elseD: "\<lbrakk>if C then A else B; \<not> C\<rbrakk> \<Longrightarrow> B"
  by simp

subsection \<open>The lemma split\<close>

lemma LEMMA_SPLIT_RE_split_first:
  "\<exists>ss. LEMMA_SPLIT_RE_split s = takeWhile (\<lambda>c. c \<noteq> CHR ''-'' \<and> c \<noteq> CHR ''_'') s # ss"
  by (induction s) auto

subsection \<open>The validation loop\<close>

lemma check_feats_first:
  assumes "\<exists>k \<in> set ks. unknown_feature dfs k \<or> invalid_value dfs feats k"
    and "set ks \<subseteq> fst ` set feats"
  shows "\<exists>pre k post. ks = pre @ k # post
           \<and> (\<forall>k' \<in> set pre. \<not> unknown_feature dfs k' \<and> \<not> invalid_value dfs feats k')
           \<and> ((unknown_feature dfs k
                  \<and> check_feats dfs feats ks = Some (InvalidReinflectorFeature k))
               \<or> (\<exists>v. invalid_value dfs feats k \<and> map_of feats k = Some v
                  \<and> check_feats dfs feats ks = Some (InvalidReinflectorFeatureValue k v)))"
  using assms
proof (induction ks)
  case Nil
  then show ?case by simp
next
  case (Cons h ks)
  from Cons.prems(2) obtain hv where hv: "map_of feats h = Some hv"
    by (metis list.set_intros(1) subsetD map_of_eq_None_iff not_Some_eq)
  show ?case
  proof (cases "unknown_feature dfs h \<or> invalid_value dfs feats h")
    case True
    then have "(unknown_feature dfs h
                  \<and> check_feats dfs feats (h # ks) = Some (InvalidReinflectorFeature h))
               \<or> (\<exists>v. invalid_value dfs feats h \<and> map_of feats h = Some v
                  \<and> check_feats dfs feats (h # ks) = Some (InvalidReinflectorFeatureValue h v))"
      using hv by (auto simp: unknown_feature_def invalid_value_def split: option.splits)
    then have "h # ks = [] @ h # ks
           \<and> (\<forall>k' \<in> set []. \<not> unknown_feature dfs k' \<and> \<not> invalid_value dfs feats k')
           \<and> ((unknown_feature dfs h
                  \<and> check_feats dfs feats (h # ks) = Some (InvalidReinflectorFeature h))
               \<or> (\<exists>v. invalid_value dfs feats h \<and> map_of feats h = Some v
                  \<and> check_feats dfs feats (h # ks) = Some (InvalidReinflectorFeatureValue h v)))"
      by simp
    then show ?thesis by blast
  next
    case False
    then have step: "check_feats dfs feats (h # ks) = check_feats dfs feats ks"
      using hv by (auto simp: unknown_feature_def invalid_value_def split: option.splits)
    from False Cons.prems have "\<exists>k \<in> set ks. unknown_feature dfs k \<or> invalid_value dfs feats k"
      and "set ks \<subseteq> fst ` set feats" by auto
    from Cons.IH[OF this] obtain pre k post where
      ks: "ks = pre @ k # post"
      and pre: "\<forall>k' \<in> set pre. \<not> unknown_feature dfs k' \<and> \<not> invalid_value dfs feats k'"
      and err: "(unknown_feature dfs k
                  \<and> check_feats dfs feats ks = Some (InvalidReinflectorFeature k))
               \<or> (\<exists>v. invalid_value dfs feats k \<and> map_of feats k = Some v
                  \<and> check_feats dfs feats ks = Some (InvalidReinflectorFeatureValue k v))"
      by blast
    have "h # ks = (h # pre) @ k # post" using ks by simp
    moreover have "\<forall>k' \<in> set (h # pre). \<not> unknown_feature dfs k' \<and> \<not> invalid_value dfs feats k'"
      using pre False by simp
    ultimately show ?thesis using err step by metis
  qed
qed

subsection \<open>The clitic loop\<close>

lemma has_clitics_iff:
  "has_clitics feats cs \<longleftrightarrow> (\<exists>c \<in> set cs. map_of feats c \<noteq> None)"
  by (induction cs) auto

subsection \<open>The inner loop\<close>

lemma merge_feats_lookup:
  "merge_feats feats hc analysis ks gf0 = Inr (Some gf) \<Longrightarrow>
   map_of gf feat =
     (if feat \<in> set ks
      then (case merged_value feats hc analysis feat of
              None \<Rightarrow> map_of gf0 feat
            | Some v \<Rightarrow> Some v)
      else map_of gf0 feat)"
proof (induction ks arbitrary: gf0)
  case Nil
  then show ?case by simp
next
  case (Cons k ks)
  let ?skip = "k \<in> IGNORED_FEATS \<or> (k \<in> SPECIFIED_FEATS \<and> map_of feats k = None)
                 \<or> (hc \<and> k \<in> CLITIC_IGNORED_FEATS)"
  show ?case
  proof (cases ?skip)
    case True
    then have run: "merge_feats feats hc analysis ks gf0 = Inr (Some gf)"
      using Cons.prems by (auto split: if_splits)
    from True have mk: "merged_value feats hc analysis k = None"
      by (auto simp: merged_value_def split: option.splits)
    show ?thesis
      using Cons.IH[OF run] mk by (cases "feat = k") simp_all
  next
    case False
    then have unfold: "merge_feats feats hc analysis (k # ks) gf0 =
       (case map_of feats k of
          Some fv \<Rightarrow>
            (case map_of analysis k of
               None \<Rightarrow> Inl (KeyError k)
             | Some av \<Rightarrow>
                 if av \<noteq> ''na'' then merge_feats feats hc analysis ks (AList.update k fv gf0)
                 else Inr None)
        | None \<Rightarrow>
            (case map_of analysis k of
               None \<Rightarrow> Inl (KeyError k)
             | Some av \<Rightarrow>
                 if av \<noteq> ''na'' then merge_feats feats hc analysis ks (AList.update k av gf0)
                 else merge_feats feats hc analysis ks gf0))"
      by auto
    from Cons.prems unfold obtain av where av: "map_of analysis k = Some av"
      by (cases "map_of analysis k") (auto split: option.splits)
    show ?thesis
    proof (cases "map_of feats k")
      case None
      show ?thesis
      proof (cases "av = ''na''")
        case True
        with None av unfold Cons.prems
        have run: "merge_feats feats hc analysis ks gf0 = Inr (Some gf)" by simp
        from None av True have mk: "merged_value feats hc analysis k = None"
          by (simp add: merged_value_def)
        show ?thesis
          using Cons.IH[OF run] mk by (cases "feat = k") simp_all
      next
        case na: False
        with None av unfold Cons.prems
        have run: "merge_feats feats hc analysis ks (AList.update k av gf0) = Inr (Some gf)"
          by simp
        from None av na False have mk: "merged_value feats hc analysis k = Some av"
          by (auto simp: merged_value_def)
        show ?thesis
          using Cons.IH[OF run] mk by (cases "feat = k") (simp_all add: update_conv' split: option.splits)
      qed
    next
      case (Some fv)
      with av unfold Cons.prems have na: "av \<noteq> ''na''"
        by (auto split: if_splits)
      with Some av unfold Cons.prems
      have run: "merge_feats feats hc analysis ks (AList.update k fv gf0) = Inr (Some gf)"
        by simp
      from Some av False have mk: "merged_value feats hc analysis k = Some fv"
        by (auto simp: merged_value_def)
      show ?thesis
        using Cons.IH[OF run] mk by (cases "feat = k") (simp_all add: update_conv' split: option.splits)
    qed
  qed
qed

lemma merge_feats_result:
  assumes "merge_feats feats hc analysis (map fst analysis) [] = Inr (Some gf)"
  shows "map_of gf feat = merged_value feats hc analysis feat"
proof (cases "map_of analysis feat")
  case None
  then have "feat \<notin> set (map fst analysis)"
    by (simp add: map_of_eq_None_iff)
  with merge_feats_lookup[OF assms, of feat] None show ?thesis
    by (simp add: merged_value_def)
next
  case (Some av)
  then have "feat \<in> set (map fst analysis)"
    by (metis map_of_eq_None_iff option.distinct(1) set_map)
  with merge_feats_lookup[OF assms, of feat] show ?thesis
    by (simp split: option.splits)
qed

lemma merge_feats_no_error:
  "set ks \<subseteq> fst ` set analysis \<Longrightarrow> merge_feats feats hc analysis ks gf0 \<noteq> Inl e"
proof (induction ks arbitrary: gf0)
  case Nil
  then show ?case by simp
next
  case (Cons k ks)
  then obtain av where "map_of analysis k = Some av"
    by (metis list.set_intros(1) subsetD map_of_eq_None_iff not_Some_eq)
  with Cons show ?case by (cases hc) (simp_all split: option.splits)
qed

lemma merge_feats_keys_no_error:
  "merge_feats feats hc analysis (map fst analysis) gf0 \<noteq> Inl e"
  by (rule merge_feats_no_error) simp

lemma merge_feats_reject:
  assumes "set ks \<subseteq> fst ` set analysis" and "k \<in> set ks"
    and "k \<notin> IGNORED_FEATS" and "\<not> (hc \<and> k \<in> CLITIC_IGNORED_FEATS)"
    and "map_of feats k \<noteq> None" and "map_of analysis k = Some ''na''"
  shows "merge_feats feats hc analysis ks gf0 = Inr None"
  using assms
proof (induction ks arbitrary: gf0)
  case Nil
  then show ?case by simp
next
  case (Cons h ks)
  then obtain av where av: "map_of analysis h = Some av"
    by (metis list.set_intros(1) subsetD map_of_eq_None_iff not_Some_eq)
  show ?case
  proof (cases "h = k")
    case True
    with Cons.prems show ?thesis by (auto split: option.splits)
  next
    case False
    with Cons.prems have "\<And>g. merge_feats feats hc analysis ks g = Inr None"
      using Cons.IH by simp
    with av show ?thesis by (cases hc) (simp_all split: option.splits)
  qed
qed

text \<open>
  Conversely, when no feature of the analysis that reaches the default rule is both
  given and \<^verbatim>\<open>na\<close>, the loop runs to its end with \<^verbatim>\<open>is_valid\<close> true.
\<close>

lemma merge_feats_accept:
  assumes "set ks \<subseteq> fst ` set analysis"
    and "\<forall>k \<in> set ks. k \<notin> IGNORED_FEATS \<and> \<not> (hc \<and> k \<in> CLITIC_IGNORED_FEATS)
           \<and> map_of feats k \<noteq> None \<longrightarrow> map_of analysis k \<noteq> Some ''na''"
  shows "\<exists>gf. merge_feats feats hc analysis ks gf0 = Inr (Some gf)"
  using assms
proof (induction ks arbitrary: gf0)
  case Nil
  then show ?case by simp
next
  case (Cons h ks)
  then obtain av where av: "map_of analysis h = Some av"
    by (metis list.set_intros(1) subsetD map_of_eq_None_iff not_Some_eq)
  from Cons.prems have IH: "\<And>g. \<exists>gf. merge_feats feats hc analysis ks g = Inr (Some gf)"
    using Cons.IH by simp
  from Cons.prems(2) have h: "h \<notin> IGNORED_FEATS \<and> \<not> (hc \<and> h \<in> CLITIC_IGNORED_FEATS)
           \<and> map_of feats h \<noteq> None \<longrightarrow> av \<noteq> ''na''"
    using av by simp
  show ?case
    using av h IH by (cases hc) (auto split: option.splits)
qed

text \<open>
  With a clitic requested, the inner loop never reads the state, case and mood
  entries of the analysis.
\<close>

lemma map_of_filter_keys:
  "k \<notin> S \<Longrightarrow> map_of (filter (\<lambda>kv. fst kv \<notin> S) xs) k = map_of xs k"
  by (induction xs) auto

lemma merge_feats_without_clitic_ignored:
  "merge_feats feats True analysis ks gf0 =
   merge_feats feats True (filter (\<lambda>kv. fst kv \<notin> CLITIC_IGNORED_FEATS) analysis)
     (filter (\<lambda>k. k \<notin> CLITIC_IGNORED_FEATS) ks) gf0"
proof (induction ks arbitrary: gf0)
  case Nil
  then show ?case by simp
next
  case (Cons h ks)
  show ?case
  proof (cases "h \<in> CLITIC_IGNORED_FEATS")
    case True
    then show ?thesis using Cons.IH by simp
  next
    case False
    then show ?thesis
      using Cons.IH by (simp add: map_of_filter_keys split: option.splits)
  qed
qed

subsection \<open>The filter\<close>

lemma analysis_filter_wf:
  assumes "map_of analysis ''diac'' = Some diac"
    and "map_of analysis ''pos'' = Some apos"
    and "map_of analysis ''lex'' = Some alex"
  shows "analysis_filter dediac_ar word feats analysis =
     Inr (if dediac_ar diac \<noteq> dediac_ar word
             \<or> (\<exists>fpos. map_of feats ''pos'' = Some fpos \<and> fpos \<noteq> apos)
             \<or> (\<exists>flex. map_of feats ''lex'' = Some flex
                   \<and> flex \<noteq> takeWhile (\<lambda>c. c \<noteq> CHR ''-'' \<and> c \<noteq> CHR ''_'') alex)
          then None
          else Some (takeWhile (\<lambda>c. c \<noteq> CHR ''-'' \<and> c \<noteq> CHR ''_'') alex))"
proof -
  obtain ss where
    "LEMMA_SPLIT_RE_split alex = takeWhile (\<lambda>c. c \<noteq> CHR ''-'' \<and> c \<noteq> CHR ''_'') alex # ss"
    using LEMMA_SPLIT_RE_split_first by blast
  with assms show ?thesis
    by (auto simp: analysis_filter_def split: option.splits bool.splits)
qed

lemma analysis_filter_no_error:
  "has_required analysis \<Longrightarrow> analysis_filter dediac_ar word feats analysis \<noteq> Inl e"
  unfolding has_required_def using analysis_filter_wf by fastforce

text \<open>
  The checks of the filter run in order: a failing check leaves the body before the
  next key is read.
\<close>

lemma analysis_filter_short_circuit:
  "map_of analysis ''diac'' = Some diac \<Longrightarrow> dediac_ar diac \<noteq> dediac_ar word \<Longrightarrow>
     analysis_filter dediac_ar word feats analysis = Inr None"
  "map_of analysis ''diac'' = Some diac \<Longrightarrow> dediac_ar diac = dediac_ar word \<Longrightarrow>
   map_of feats ''pos'' = Some fpos \<Longrightarrow> map_of analysis ''pos'' = Some apos \<Longrightarrow> fpos \<noteq> apos \<Longrightarrow>
     analysis_filter dediac_ar word feats analysis = Inr None"
  by (simp_all add: analysis_filter_def)

subsection \<open>The outer loop\<close>

lemma analyses_loop_results:
  "\<forall>a \<in> set analyses. has_required a \<Longrightarrow>
   fst (analyses_loop dediac_ar generate word feats hc analyses results calls) =
     Inr (results @ concat (map (contribution dediac_ar generate word feats hc) analyses))"
proof (induction analyses arbitrary: results calls)
  case Nil
  then show ?case by simp
next
  case (Cons a analyses)
  have 1: "analysis_filter dediac_ar word feats a \<noteq> Inl e" for e
    using Cons.prems analysis_filter_no_error by simp
  have 2: "merge_feats feats hc a (map fst a) [] \<noteq> Inl e" for e
    by (rule merge_feats_keys_no_error)
  from Cons.prems have IH:
    "\<And>results calls. fst (analyses_loop dediac_ar generate word feats hc analyses results calls) =
       Inr (results @ concat (map (contribution dediac_ar generate word feats hc) analyses))"
    using Cons.IH by simp
  have 3: "contribution dediac_ar generate word feats hc a =
     (case analysis_filter dediac_ar word feats a of
        Inr (Some lemma) \<Rightarrow>
          (case merge_feats feats hc a (map fst a) [] of
             Inr (Some generate_feats) \<Rightarrow>
               (case generate lemma generate_feats of
                  Some generated \<Rightarrow> generated
                | None \<Rightarrow> [])
           | _ \<Rightarrow> [])
      | _ \<Rightarrow> [])"
    by (simp add: contribution_def)
  show ?case using 1 2
    by (simp add: IH 3 split: sum.splits option.splits)
qed


subsection \<open>The method as a whole\<close>

text \<open>
  The order in which \<^verbatim>\<open>_CLITIC_FEATS\<close> is iterated does not show in the outcome.
\<close>

lemma reinflect_order_independent:
  assumes "set order1 = CLITIC_FEATS" and "set order2 = CLITIC_FEATS"
  shows "reinflect dediac_ar order1 self word feats = reinflect dediac_ar order2 self word feats"
proof -
  have "has_clitics feats order1 = has_clitics feats order2"
    using assms by (simp add: has_clitics_iff)
  then show ?thesis by (simp add: reinflect_def split: option.splits list.splits)
qed

subsection \<open>The heap\<close>

text \<open>
  When the generator leaves the heap as it is, so does the outer loop, and its
  result is that of the loop over the generator's answers in that heap. The same
  holds of the whole method when the analyzer, too, leaves the heap as it is.
\<close>

lemma analyses_loop_st_read_only:
  assumes "\<And>lm gf h. snd (generate lm gf h) = h"
  shows "analyses_loop_st dediac_ar generate word hc analyses results h =
           (fst (analyses_loop dediac_ar (\<lambda>lm gf. fst (generate lm gf h)) word (feats_obj h) hc
                   analyses results calls), h)"
proof (induction analyses arbitrary: results calls)
  case Nil
  then show ?case by simp
next
  case (Cons a analyses)
  have gen: "generate lm gf h = (fst (generate lm gf h), h)" for lm gf
    using assms[of lm gf h] by (metis prod.collapse)
  show ?case
  proof (cases "analysis_filter dediac_ar word (feats_obj h) a")
    case (Inl e)
    then show ?thesis by simp
  next
    case (Inr r)
    show ?thesis
    proof (cases r)
      case None
      with Inr show ?thesis using Cons.IH by simp
    next
      case (Some lm)
      show ?thesis
      proof (cases "merge_feats (feats_obj h) hc a (map fst a) []")
        case (Inl e)
        with Inr Some show ?thesis by simp
      next
        case m: (Inr r')
        show ?thesis
        proof (cases r')
          case None
          with Inr Some m show ?thesis using Cons.IH by simp
        next
          case gf: (Some gf)
          show ?thesis
          proof (cases "fst (generate lm gf h)")
            case None
            with Inr Some m gf gen[of lm gf] show ?thesis
              using Cons.IH[of results "calls @ [(lm, gf)]"] by simp
          next
            case g: (Some generated)
            with Inr Some m gf gen[of lm gf] show ?thesis
              using Cons.IH[of "results @ generated" "calls @ [(lm, gf)]"] by simp
          qed
        qed
      qed
    qed
  qed
qed

lemma reinflect_st_read_only:
  assumes "\<And>w h. snd (analyze w h) = h"
    and "\<And>lm gf h. snd (generate lm gf h) = h"
  shows "reinflect_st dediac_ar clitic_feats analyze generate word h =
           (fst (reinflect dediac_ar clitic_feats
                   \<lparr>db = self_db h, analyzer = (\<lambda>w. fst (analyze w h)),
                    generator = (\<lambda>lm gf. fst (generate lm gf h))\<rparr> word (feats_obj h)), h)"
proof -
  have an: "analyze word h = (fst (analyze word h), h)"
    using assms(1)[of word h] by (metis prod.collapse)
  show ?thesis
  proof (cases "fst (analyze word h)")
    case None
    with an show ?thesis by (simp add: reinflect_st_def reinflect_def)
  next
    case (Some analyses)
    show ?thesis
    proof (cases analyses)
      case Nil
      with Some an show ?thesis by (simp add: reinflect_st_def reinflect_def)
    next
      case (Cons a rest)
      show ?thesis
      proof (cases "check_feats (db_defines (self_db h)) (feats_obj h) (map fst (feats_obj h))")
        case None
        with Some Cons an show ?thesis
          using analyses_loop_st_read_only[OF assms(2), where dediac_ar = dediac_ar
              and word = word and hc = "has_clitics (feats_obj h) clitic_feats"
              and analyses = "a # rest" and results = "[]" and h = h and calls = "[]"]
          by (simp add: reinflect_st_def reinflect_def)
      next
        case (Some e)
        with \<open>fst (analyze word h) = Some analyses\<close> Cons an show ?thesis
          by (simp add: reinflect_st_def reinflect_def)
      qed
    qed
  qed
qed

subsection \<open>Unfolding the small lexicon\<close>

lemmas ex_defs = ex_self_def ex_db_def ex_defines_def ex_analyzer_def ex_generator_def
  ex_dediac_def ex_clitic_feats_def ex_kitAb_def ex_kuttAb_def ex_katAb_def

lemmas const_defs = IGNORED_FEATS_def SPECIFIED_FEATS_def CLITIC_IGNORED_FEATS_def

subsection \<open>A generator that changes the heap\<close>

text \<open>
  A generator that changes the heap shows in the outcome of the next call: with a
  generator that records what it generates in the lexicon, the second call meets
  more analyses than the first and returns a longer list.
\<close>

lemma learning_generator_not_repeatable:
  "fst (reinflect_st ex_dediac ex_clitic_feats ex_analyze_st ex_generate_learning ''ktAb''
          (snd (reinflect_st ex_dediac ex_clitic_feats ex_analyze_st ex_generate_learning ''ktAb''
                  ex_heap)))
   \<noteq> fst (reinflect_st ex_dediac ex_clitic_feats ex_analyze_st ex_generate_learning ''ktAb'' ex_heap)"
  by (simp add: reinflect_st_def ex_analyze_st_def ex_generate_learning_def ex_heap_def ex_defs
        const_defs analysis_filter_def)

section \<open>The claims\<close>

subsection \<open>C1: the merge classifies each feature of the analysis\<close>

text \<open>
  C1, as the code has it. The inner loop runs over the feature names of the analysis
  and either rejects the analysis or builds the feature set for the generator. It
  rejects exactly when some feature that reaches the default rule (a feature outside
  the ignored set, and not a state/case/mood feature while a clitic is requested) is
  among the given features and has the value \<^verbatim>\<open>na\<close> in the analysis. In every other
  case the loop ends with \<^verbatim>\<open>is_valid\<close> true, and the dictionary it hands to the
  generator holds, for every feature name, exactly what the precedence gives it: a
  name absent from the analysis, or in the ignored set, or a form gender/number name
  not among the given features, or a state/case/mood name when a clitic was requested,
  has no entry; any other name has the given feature's value when one is given, the
  analysis's value when none is given and that value is not \<^verbatim>\<open>na\<close>, and no entry when
  none is given and the value is \<^verbatim>\<open>na\<close>.
\<close>

theorem merge_feats_outcome:
  "if (\<exists>k. k \<notin> IGNORED_FEATS \<and> \<not> (hc \<and> k \<in> CLITIC_IGNORED_FEATS)
           \<and> map_of feats k \<noteq> None \<and> map_of analysis k = Some ''na'')
   then merge_feats feats hc analysis (map fst analysis) [] = Inr None
   else (\<exists>generate_feats.
           merge_feats feats hc analysis (map fst analysis) [] = Inr (Some generate_feats)
           \<and> (\<forall>feat. map_of generate_feats feat =
                 (case map_of analysis feat of
                    None \<Rightarrow> None
                  | Some av \<Rightarrow>
                      if feat \<in> IGNORED_FEATS then None
                      else if feat \<in> SPECIFIED_FEATS \<and> map_of feats feat = None then None
                      else if hc \<and> feat \<in> CLITIC_IGNORED_FEATS then None
                      else (case map_of feats feat of
                              Some fv \<Rightarrow> Some fv
                            | None \<Rightarrow> if av \<noteq> ''na'' then Some av else None))))"
proof (cases "\<exists>k. k \<notin> IGNORED_FEATS \<and> \<not> (hc \<and> k \<in> CLITIC_IGNORED_FEATS)
           \<and> map_of feats k \<noteq> None \<and> map_of analysis k = Some ''na''")
  case True
  then obtain k where k: "k \<notin> IGNORED_FEATS" "\<not> (hc \<and> k \<in> CLITIC_IGNORED_FEATS)"
    "map_of feats k \<noteq> None" "map_of analysis k = Some ''na''" by blast
  from k(4) have "k \<in> set (map fst analysis)"
    by (metis map_of_eq_None_iff option.distinct(1) set_map)
  then have "merge_feats feats hc analysis (map fst analysis) [] = Inr None"
    using k by (intro merge_feats_reject) auto
  with True show ?thesis by simp
next
  case False
  then have "\<forall>k \<in> set (map fst analysis). k \<notin> IGNORED_FEATS \<and> \<not> (hc \<and> k \<in> CLITIC_IGNORED_FEATS)
           \<and> map_of feats k \<noteq> None \<longrightarrow> map_of analysis k \<noteq> Some ''na''"
    by blast
  then obtain gf where gf: "merge_feats feats hc analysis (map fst analysis) [] = Inr (Some gf)"
    using merge_feats_accept[of "map fst analysis" analysis hc feats "[]"] by auto
  have "\<forall>feat. map_of gf feat = merged_value feats hc analysis feat"
    using merge_feats_result[OF gf] by simp
  with gf False show ?thesis
    by (simp add: merged_value_def)
qed

theorem merge_feats_outcome_witness:
  "has_clitics [(''num'', ''p''), (''enc0'', ''3ms_poss'')] ex_clitic_feats
   \<and> (\<exists>generate_feats.
        merge_feats [(''num'', ''p''), (''enc0'', ''3ms_poss'')]
          (has_clitics [(''num'', ''p''), (''enc0'', ''3ms_poss'')] ex_clitic_feats)
          ex_kitAb (map fst ex_kitAb) [] = Inr (Some generate_feats)
        \<and> map_of generate_feats ''num'' = Some ''p''
        \<and> map_of generate_feats ''enc0'' = Some ''3ms_poss''
        \<and> map_of generate_feats ''gen'' = Some ''m''
        \<and> map_of generate_feats ''asp'' = None
        \<and> map_of generate_feats ''cas'' = None
        \<and> map_of generate_feats ''form_gen'' = None
        \<and> map_of generate_feats ''diac'' = None
        \<and> map_of generate_feats ''prc0'' = None)
   \<and> \<not> has_clitics [(''asp'', ''p'')] ex_clitic_feats
   \<and> merge_feats [(''asp'', ''p'')] (has_clitics [(''asp'', ''p'')] ex_clitic_feats)
        ex_kitAb (map fst ex_kitAb) [] = Inr None"
proof -
  let ?F = "[(''num'', ''p''), (''enc0'', ''3ms_poss'')]"
  have hc: "has_clitics ?F ex_clitic_feats" and nhc: "\<not> has_clitics [(''asp'', ''p'')] ex_clitic_feats"
    by (simp_all add: ex_clitic_feats_def)
  have free: "\<not> (\<exists>k. k \<notin> IGNORED_FEATS \<and> \<not> (has_clitics ?F ex_clitic_feats \<and> k \<in> CLITIC_IGNORED_FEATS)
           \<and> map_of ?F k \<noteq> None \<and> map_of ex_kitAb k = Some ''na'')"
    by (auto simp: ex_kitAb_def split: if_splits)
  have conflict: "\<exists>k. k \<notin> IGNORED_FEATS
           \<and> \<not> (has_clitics [(''asp'', ''p'')] ex_clitic_feats \<and> k \<in> CLITIC_IGNORED_FEATS)
           \<and> map_of [(''asp'', ''p'')] k \<noteq> None \<and> map_of ex_kitAb k = Some ''na''"
    using nhc by (intro exI[of _ "''asp''"]) (simp add: ex_kitAb_def IGNORED_FEATS_def)
  from if_elseD[OF merge_feats_outcome[of "has_clitics ?F ex_clitic_feats" ?F ex_kitAb] free]
  obtain gf where gf: "merge_feats ?F (has_clitics ?F ex_clitic_feats) ex_kitAb (map fst ex_kitAb) [] =
      Inr (Some gf)"
    and look: "\<And>feat. map_of gf feat =
                 (case map_of ex_kitAb feat of
                    None \<Rightarrow> None
                  | Some av \<Rightarrow>
                      if feat \<in> IGNORED_FEATS then None
                      else if feat \<in> SPECIFIED_FEATS \<and> map_of ?F feat = None then None
                      else if has_clitics ?F ex_clitic_feats \<and> feat \<in> CLITIC_IGNORED_FEATS then None
                      else (case map_of ?F feat of
                              Some fv \<Rightarrow> Some fv
                            | None \<Rightarrow> if av \<noteq> ''na'' then Some av else None))"
    by blast
  have vals: "map_of gf ''num'' = Some ''p''" "map_of gf ''enc0'' = Some ''3ms_poss''"
    "map_of gf ''gen'' = Some ''m''" "map_of gf ''asp'' = None" "map_of gf ''cas'' = None"
    "map_of gf ''form_gen'' = None" "map_of gf ''diac'' = None" "map_of gf ''prc0'' = None"
    unfolding look using hc by (simp_all add: ex_kitAb_def const_defs)
  have rej: "merge_feats [(''asp'', ''p'')] (has_clitics [(''asp'', ''p'')] ex_clitic_feats)
        ex_kitAb (map fst ex_kitAb) [] = Inr None"
    by (rule if_thenD[OF merge_feats_outcome[of "has_clitics [(''asp'', ''p'')] ex_clitic_feats"
            "[(''asp'', ''p'')]" ex_kitAb] conflict])
  from hc nhc gf vals rej show ?thesis by blast
qed

text \<open>
  The claim as written gives every overridden feature that reaches the default rule
  the override's value. Here \<^verbatim>\<open>asp\<close> is such a feature of the first analysis, which
  passes the filter, and it is overridden; its value in the analysis is \<^verbatim>\<open>na\<close>, so the
  loop breaks, no feature set is built, and the generator is not called for that
  analysis.
\<close>

theorem override_of_na_counterexample:
  "analyzer ex_self ''ktAb'' = Some [ex_kitAb, ex_kuttAb, ex_katAb]
   \<and> check_feats (db_defines (db ex_self)) [(''asp'', ''p'')] [''asp''] = None
   \<and> analysis_filter ex_dediac ''ktAb'' [(''asp'', ''p'')] ex_kitAb = Inr (Some ''kitAb'')
   \<and> map_of ex_kitAb ''asp'' = Some ''na''
   \<and> map_of [(''asp'', ''p'')] ''asp'' = Some ''p''
   \<and> ''asp'' \<notin> IGNORED_FEATS \<and> ''asp'' \<notin> SPECIFIED_FEATS \<and> ''asp'' \<notin> CLITIC_IGNORED_FEATS
   \<and> merge_feats [(''asp'', ''p'')] (has_clitics [(''asp'', ''p'')] ex_clitic_feats)
        ex_kitAb (map fst ex_kitAb) [] = Inr None
   \<and> snd (reinflect ex_dediac ex_clitic_feats ex_self ''ktAb'' [(''asp'', ''p'')]) =
       [(''kAtib'', [(''pos'', ''noun''), (''gen'', ''m''), (''num'', ''p'')]),
        (''katAb'', [(''pos'', ''verb''), (''asp'', ''p'')])]"
  by (simp add: reinflect_def ex_defs const_defs analysis_filter_def)

subsection \<open>C2: an override of an inapplicable feature\<close>

text \<open>
  C2, as the code has it. Take an analysis that passes the filter and a feature of
  it whose value is \<^verbatim>\<open>na\<close>, that is among the given features, that is not in the
  ignored set, and that is not a state/case/mood feature while a clitic is
  requested. Then the inner loop ends with \<^verbatim>\<open>is_valid\<close> false, and the analysis
  adds nothing: the generator is not called for it, the results stay as they are, no
  error is raised, and the loop goes on with the remaining analyses.
\<close>

theorem na_conflict_excludes_analysis:
  assumes "analysis_filter dediac_ar word feats analysis = Inr (Some lm)"
    and "map_of analysis k = Some ''na''"
    and "map_of feats k \<noteq> None"
    and "k \<notin> IGNORED_FEATS"
    and "\<not> (hc \<and> k \<in> CLITIC_IGNORED_FEATS)"
  shows "merge_feats feats hc analysis (map fst analysis) [] = Inr None
         \<and> analyses_loop dediac_ar generate word feats hc (analysis # rest) results calls =
             analyses_loop dediac_ar generate word feats hc rest results calls"
proof -
  from assms(2) have "k \<in> set (map fst analysis)"
    by (metis map_of_eq_None_iff option.distinct(1) set_map)
  then have rej: "merge_feats feats hc analysis (map fst analysis) [] = Inr None"
    using assms(2-5) by (intro merge_feats_reject) auto
  with assms(1) show ?thesis by simp
qed

theorem na_conflict_excludes_analysis_witness:
  "analysis_filter ex_dediac ''ktAb'' [(''asp'', ''p'')] ex_kitAb = Inr (Some ''kitAb'')
   \<and> merge_feats [(''asp'', ''p'')] False ex_kitAb (map fst ex_kitAb) [] = Inr None
   \<and> analyses_loop ex_dediac ex_generator ''ktAb'' [(''asp'', ''p'')] False
        [ex_kitAb, ex_kuttAb, ex_katAb] [] [] =
      (Inr [(''kAtib'', [(''pos'', ''noun''), (''gen'', ''m''), (''num'', ''p'')]),
            (''katAb'', [(''pos'', ''verb''), (''asp'', ''p'')])],
       [(''kAtib'', [(''pos'', ''noun''), (''gen'', ''m''), (''num'', ''p'')]),
        (''katAb'', [(''pos'', ''verb''), (''asp'', ''p'')])])"
  using na_conflict_excludes_analysis [of ex_dediac "''ktAb''" "[(''asp'', ''p'')]" ex_kitAb
          "''kitAb''" "''asp''" False ex_generator "[ex_kuttAb, ex_katAb]" "[]" "[]"]
  by (simp add: ex_defs const_defs analysis_filter_def)

text \<open>
  The claim as written fails for the features that the loop skips before it looks
  at the given features. With \<^verbatim>\<open>enc0\<close> given, the override of \<^verbatim>\<open>stt\<close> meets the value
  \<^verbatim>\<open>na\<close> in the first analysis, which passes the filter, and the generator is still
  called for that analysis. With \<^verbatim>\<open>root\<close> given, an ignored feature, the same happens
  in the second analysis.
\<close>

theorem na_override_counterexample:
  "map_of [(''pos'', ''noun''), (''stt'', ''d''), (''enc0'', ''3ms_poss'')] ''stt'' = Some ''d''
   \<and> map_of ex_kitAb ''stt'' = Some ''na''
   \<and> analyzer ex_self ''ktAb'' = Some [ex_kitAb, ex_kuttAb, ex_katAb]
   \<and> check_feats (db_defines (db ex_self))
        [(''pos'', ''noun''), (''stt'', ''d''), (''enc0'', ''3ms_poss'')]
        [''pos'', ''stt'', ''enc0''] = None
   \<and> analysis_filter ex_dediac ''ktAb''
        [(''pos'', ''noun''), (''stt'', ''d''), (''enc0'', ''3ms_poss'')] ex_kitAb = Inr (Some ''kitAb'')
   \<and> reinflect ex_dediac ex_clitic_feats ex_self ''ktAb''
        [(''pos'', ''noun''), (''stt'', ''d''), (''enc0'', ''3ms_poss'')] =
      (Inr [(''kitAb'', [(''pos'', ''noun''), (''gen'', ''m''), (''num'', ''s''),
                         (''enc0'', ''3ms_poss'')]),
            (''kAtib'', [(''pos'', ''noun''), (''gen'', ''m''), (''num'', ''p'')])],
       [(''kitAb'', [(''pos'', ''noun''), (''gen'', ''m''), (''num'', ''s''),
                     (''enc0'', ''3ms_poss'')]),
        (''kAtib'', [(''pos'', ''noun''), (''gen'', ''m''), (''num'', ''p'')])])
   \<and> map_of ex_kuttAb ''root'' = Some ''na''
   \<and> check_feats (db_defines (db ex_self)) [(''root'', ''ktb'')] [''root''] = None
   \<and> analysis_filter ex_dediac ''ktAb'' [(''root'', ''ktb'')] ex_kuttAb = Inr (Some ''kAtib'')
   \<and> snd (reinflect ex_dediac ex_clitic_feats ex_self ''ktAb'' [(''root'', ''ktb'')]) =
       [(''kitAb'', [(''pos'', ''noun''), (''gen'', ''m''), (''num'', ''s''), (''cas'', ''n''),
                     (''enc0'', ''0'')]),
        (''kAtib'', [(''pos'', ''noun''), (''gen'', ''m''), (''num'', ''p'')]),
        (''katAb'', [(''pos'', ''verb''), (''asp'', ''p'')])]"
  by (simp add: reinflect_def ex_defs const_defs analysis_filter_def)

subsection \<open>C3: validation of the given features\<close>

text \<open>
  C3, as the code has it. When the analyzer returns at least one analysis and some
  given feature offends the schema, \<^verbatim>\<open>reinflect\<close> raises for the first offending
  feature in the iteration order of the given features: \<^verbatim>\<open>InvalidReinflectorFeature\<close>
  when that feature's name is not defined, \<^verbatim>\<open>InvalidReinflectorFeatureValue\<close> when
  its value is outside the collection the schema gives. The call raises before any
  analysis is processed: the generator is never called and nothing is returned.
\<close>

theorem reinflect_validation_failure:
  assumes "analyzer self word = Some (a # rest)"
    and "\<exists>k \<in> set (map fst feats).
           unknown_feature (db_defines (db self)) k \<or> invalid_value (db_defines (db self)) feats k"
  shows "\<exists>pre k post. map fst feats = pre @ k # post
           \<and> (\<forall>k' \<in> set pre. \<not> unknown_feature (db_defines (db self)) k'
                              \<and> \<not> invalid_value (db_defines (db self)) feats k')
           \<and> ((unknown_feature (db_defines (db self)) k
                  \<and> reinflect dediac_ar clitic_feats self word feats =
                      (Inl (InvalidReinflectorFeature k), []))
               \<or> (\<exists>v. invalid_value (db_defines (db self)) feats k \<and> map_of feats k = Some v
                  \<and> reinflect dediac_ar clitic_feats self word feats =
                      (Inl (InvalidReinflectorFeatureValue k v), [])))"
proof -
  have sub: "set (map fst feats) \<subseteq> fst ` set feats" by simp
  have r: "check_feats (db_defines (db self)) feats (map fst feats) = Some e \<Longrightarrow>
           reinflect dediac_ar clitic_feats self word feats = (Inl e, [])" for e
    using assms(1) by (simp add: reinflect_def)
  from check_feats_first[OF assms(2) sub] obtain pre k post where
    ks: "map fst feats = pre @ k # post"
    and pre: "\<forall>k' \<in> set pre. \<not> unknown_feature (db_defines (db self)) k'
                              \<and> \<not> invalid_value (db_defines (db self)) feats k'"
    and err: "(unknown_feature (db_defines (db self)) k
                  \<and> check_feats (db_defines (db self)) feats (map fst feats) =
                      Some (InvalidReinflectorFeature k))
               \<or> (\<exists>v. invalid_value (db_defines (db self)) feats k \<and> map_of feats k = Some v
                  \<and> check_feats (db_defines (db self)) feats (map fst feats) =
                      Some (InvalidReinflectorFeatureValue k v))"
    by blast
  from err have "(unknown_feature (db_defines (db self)) k
                  \<and> reinflect dediac_ar clitic_feats self word feats =
                      (Inl (InvalidReinflectorFeature k), []))
               \<or> (\<exists>v. invalid_value (db_defines (db self)) feats k \<and> map_of feats k = Some v
                  \<and> reinflect dediac_ar clitic_feats self word feats =
                      (Inl (InvalidReinflectorFeatureValue k v), []))"
    using r by blast
  with ks pre show ?thesis by blast
qed

theorem reinflect_validation_failure_witness:
  "reinflect ex_dediac ex_clitic_feats ex_self ''ktAb'' [(''num'', ''p''), (''zzz'', ''x'')] =
     (Inl (InvalidReinflectorFeature ''zzz''), [])
   \<and> reinflect ex_dediac ex_clitic_feats ex_self ''ktAb'' [(''num'', ''d''), (''zzz'', ''x'')] =
     (Inl (InvalidReinflectorFeatureValue ''num'' ''d''), [])"
proof -
  have an: "analyzer ex_self ''ktAb'' = Some (ex_kitAb # [ex_kuttAb, ex_katAb])"
    by (simp add: ex_self_def ex_analyzer_def)
  have bad1: "\<exists>k \<in> set (map fst [(''num'', ''p''), (''zzz'', ''x'')]).
           unknown_feature (db_defines (db ex_self)) k
           \<or> invalid_value (db_defines (db ex_self)) [(''num'', ''p''), (''zzz'', ''x'')] k"
    by (simp add: unknown_feature_def ex_self_def ex_db_def ex_defines_def)
  have bad2: "\<exists>k \<in> set (map fst [(''num'', ''d''), (''zzz'', ''x'')]).
           unknown_feature (db_defines (db ex_self)) k
           \<or> invalid_value (db_defines (db ex_self)) [(''num'', ''d''), (''zzz'', ''x'')] k"
    by (simp add: unknown_feature_def ex_self_def ex_db_def ex_defines_def)
  from reinflect_validation_failure[OF an bad1, of ex_dediac ex_clitic_feats]
  have 1: "reinflect ex_dediac ex_clitic_feats ex_self ''ktAb'' [(''num'', ''p''), (''zzz'', ''x'')] =
     (Inl (InvalidReinflectorFeature ''zzz''), [])"
    by (auto simp: unknown_feature_def invalid_value_def ex_self_def ex_db_def ex_defines_def
          Cons_eq_append_conv split: if_splits)
  from reinflect_validation_failure[OF an bad2, of ex_dediac ex_clitic_feats]
  have 2: "reinflect ex_dediac ex_clitic_feats ex_self ''ktAb'' [(''num'', ''d''), (''zzz'', ''x'')] =
     (Inl (InvalidReinflectorFeatureValue ''num'' ''d''), [])"
    by (auto simp: unknown_feature_def invalid_value_def ex_self_def ex_db_def ex_defines_def
          Cons_eq_append_conv split: if_splits)
  from 1 2 show ?thesis by simp
qed

text \<open>
  The claim as written fails in two ways. When the analyzer returns nothing, the
  method returns the empty list before it validates, so an undefined feature raises
  nothing. And when two given features offend, the first one decides the exception:
  an undefined feature after an invalid value does not raise
  \<^verbatim>\<open>InvalidReinflectorFeature\<close>, and an invalid value after an undefined feature
  does not raise \<^verbatim>\<open>InvalidReinflectorFeatureValue\<close>.
\<close>

theorem validation_counterexample:
  "map_of [(''zzz'', ''x'')] ''zzz'' = Some ''x''
   \<and> db_defines (db ex_self) ''zzz'' = None
   \<and> analyzer ex_self ''qlm'' = None
   \<and> reinflect ex_dediac ex_clitic_feats ex_self ''qlm'' [(''zzz'', ''x'')] = (Inr [], [])
   \<and> db_defines (db ex_self) ''num'' = Some (Some [''s'', ''p''])
   \<and> reinflect ex_dediac ex_clitic_feats ex_self ''ktAb'' [(''num'', ''d''), (''zzz'', ''x'')] =
       (Inl (InvalidReinflectorFeatureValue ''num'' ''d''), [])
   \<and> reinflect ex_dediac ex_clitic_feats ex_self ''ktAb'' [(''zzz'', ''x''), (''num'', ''d'')] =
       (Inl (InvalidReinflectorFeature ''zzz''), [])"
  by (simp add: reinflect_def ex_defs)

subsection \<open>C4: a requested clitic relaxes state, case and mood\<close>

text \<open>
  C4. When one of the five clitic feature names is among the given features,
  \<^verbatim>\<open>has_clitics\<close> is true, whatever the order in which \<^verbatim>\<open>_CLITIC_FEATS\<close> is
  iterated. The inner loop then does with any analysis exactly what it does with
  that analysis stripped of its state, case and mood entries, so these entries take
  no part in the rejection on \<^verbatim>\<open>na\<close>; and the feature set it builds for the generator
  has none of the three keys.
\<close>

theorem clitic_override_relaxes:
  assumes "set clitic_feats = CLITIC_FEATS"
    and "c \<in> CLITIC_FEATS"
    and "map_of feats c \<noteq> None"
  shows "has_clitics feats clitic_feats
         \<and> merge_feats feats (has_clitics feats clitic_feats) analysis (map fst analysis) [] =
             merge_feats feats (has_clitics feats clitic_feats)
               (filter (\<lambda>kv. fst kv \<notin> CLITIC_IGNORED_FEATS) analysis)
               (map fst (filter (\<lambda>kv. fst kv \<notin> CLITIC_IGNORED_FEATS) analysis)) []
         \<and> (\<forall>generate_feats.
               merge_feats feats (has_clitics feats clitic_feats) analysis (map fst analysis) [] =
                 Inr (Some generate_feats) \<longrightarrow>
               fst ` set generate_feats \<inter> CLITIC_IGNORED_FEATS = {})"
proof -
  have hc: "has_clitics feats clitic_feats"
    using assms by (auto simp: has_clitics_iff)
  have keys: "map fst (filter (\<lambda>kv. fst kv \<notin> CLITIC_IGNORED_FEATS) analysis) =
              filter (\<lambda>k. k \<notin> CLITIC_IGNORED_FEATS) (map fst analysis)"
    by (simp add: filter_map comp_def)
  have same: "merge_feats feats True analysis (map fst analysis) [] =
             merge_feats feats True
               (filter (\<lambda>kv. fst kv \<notin> CLITIC_IGNORED_FEATS) analysis)
               (map fst (filter (\<lambda>kv. fst kv \<notin> CLITIC_IGNORED_FEATS) analysis)) []"
    unfolding keys by (rule merge_feats_without_clitic_ignored)
  have none: "fst ` set gf \<inter> CLITIC_IGNORED_FEATS = {}"
    if m: "merge_feats feats True analysis (map fst analysis) [] = Inr (Some gf)" for gf
  proof -
    have "map_of gf k = None" if "k \<in> CLITIC_IGNORED_FEATS" for k
      using merge_feats_lookup[OF m, of k] that
      by (auto simp: merged_value_def split: option.splits)
    then show ?thesis
      by (auto simp: map_of_eq_None_iff)
  qed
  from hc same none show ?thesis by simp
qed

theorem clitic_override_relaxes_witness:
  "has_clitics [(''stt'', ''d''), (''enc0'', ''3ms_poss'')] ex_clitic_feats
   \<and> map_of ex_kitAb ''stt'' = Some ''na''
   \<and> merge_feats [(''stt'', ''d''), (''enc0'', ''3ms_poss'')] True ex_kitAb (map fst ex_kitAb) [] =
       Inr (Some [(''pos'', ''noun''), (''gen'', ''m''), (''num'', ''s''), (''enc0'', ''3ms_poss'')])
   \<and> merge_feats [(''stt'', ''d'')] False ex_kitAb (map fst ex_kitAb) [] = Inr None"
  using clitic_override_relaxes [of ex_clitic_feats "''enc0''"
          "[(''stt'', ''d''), (''enc0'', ''3ms_poss'')]" ex_kitAb]
  by (simp add: ex_clitic_feats_def ex_kitAb_def CLITIC_FEATS_def const_defs)

subsection \<open>C5: the analysis filter\<close>

text \<open>
  C5. An analysis with its three guaranteed keys is dropped by the filter exactly
  when its dediacritized form differs from the dediacritized word, or a \<^verbatim>\<open>pos\<close> is
  given and differs from the analysis's, or a \<^verbatim>\<open>lex\<close> is given and differs from the
  first segment of the analysis's lexeme identifier; otherwise it goes on with that
  segment as its lemma. No error is raised, and a dropped analysis leaves the results
  and the generator untouched: the loop goes on with the next analysis.
\<close>

theorem analysis_filter_drops:
  assumes "map_of analysis ''diac'' = Some diac"
    and "map_of analysis ''pos'' = Some apos"
    and "map_of analysis ''lex'' = Some alex"
  shows "analysis_filter dediac_ar word feats analysis =
           Inr (if dediac_ar diac \<noteq> dediac_ar word
                   \<or> (\<exists>fpos. map_of feats ''pos'' = Some fpos \<and> fpos \<noteq> apos)
                   \<or> (\<exists>flex. map_of feats ''lex'' = Some flex
                         \<and> flex \<noteq> takeWhile (\<lambda>c. c \<noteq> CHR ''-'' \<and> c \<noteq> CHR ''_'') alex)
                then None
                else Some (takeWhile (\<lambda>c. c \<noteq> CHR ''-'' \<and> c \<noteq> CHR ''_'') alex))
         \<and> (analysis_filter dediac_ar word feats analysis = Inr None \<longrightarrow>
              analyses_loop dediac_ar generate word feats hc (analysis # rest) results calls =
              analyses_loop dediac_ar generate word feats hc rest results calls)"
  using analysis_filter_wf[OF assms] by simp

theorem analysis_filter_drops_witness:
  "analysis_filter ex_dediac ''ktAb'' [(''pos'', ''noun'')] ex_katAb = Inr None
   \<and> analysis_filter ex_dediac ''ktAb'' [(''pos'', ''noun'')] ex_kuttAb = Inr (Some ''kAtib'')
   \<and> analysis_filter ex_dediac ''ktAb'' [(''lex'', ''kitAb'')] ex_kuttAb = Inr None
   \<and> analysis_filter ex_dediac ''ktb'' [] ex_kitAb = Inr None
   \<and> analyses_loop ex_dediac ex_generator ''ktAb'' [(''pos'', ''noun'')] False [ex_katAb] [] [] =
       (Inr [], [])"
  using analysis_filter_drops [of ex_katAb "''katAba''" "''verb''" "''katAb_1''" ex_dediac "''ktAb''"
          "[(''pos'', ''noun'')]" ex_generator False "[]" "[]" "[]"]
        analysis_filter_drops [of ex_kuttAb "''kut~Ab''" "''noun''" "''kAtib-2''" ex_dediac "''ktAb''"
          "[(''pos'', ''noun'')]" ex_generator False "[]" "[]" "[]"]
        analysis_filter_drops [of ex_kuttAb "''kut~Ab''" "''noun''" "''kAtib-2''" ex_dediac "''ktAb''"
          "[(''lex'', ''kitAb'')]" ex_generator False "[]" "[]" "[]"]
        analysis_filter_drops [of ex_kitAb "''kitAb''" "''noun''" "''kitAb_1''" ex_dediac "''ktb''"
          "[]" ex_generator False "[]" "[]" "[]"]
  by (simp add: ex_katAb_def ex_kuttAb_def ex_kitAb_def ex_dediac_def)

subsection \<open>C6: no analyses\<close>

text \<open>
  C6. When the analyzer returns nothing or an empty list for the word, \<^verbatim>\<open>reinflect\<close>
  returns the empty list, raises nothing and never calls the generator, whatever the
  given features are.
\<close>

theorem reinflect_no_analyses:
  assumes "analyzer self word = None \<or> analyzer self word = Some []"
  shows "reinflect dediac_ar clitic_feats self word feats = (Inr [], [])"
  using assms by (auto simp: reinflect_def)

theorem reinflect_no_analyses_witness:
  "analyzer ex_self ''qlm'' = None
   \<and> check_feats (db_defines (db ex_self)) [(''zzz'', ''x'')] [''zzz''] = Some (InvalidReinflectorFeature ''zzz'')
   \<and> reinflect ex_dediac ex_clitic_feats ex_self ''qlm'' [(''zzz'', ''x'')] = (Inr [], [])"
  using reinflect_no_analyses [of ex_self "''qlm''" ex_dediac ex_clitic_feats "[(''zzz'', ''x'')]"]
  by (simp add: ex_self_def ex_analyzer_def ex_db_def ex_defines_def)

subsection \<open>C7: the result is the concatenation of the generator's outputs\<close>

text \<open>
  C7. When the analyzer's analyses all have their three guaranteed keys and, unless
  there is none, the given features pass the validation, \<^verbatim>\<open>reinflect\<close> returns: no
  analysis aborts the call. The list returned is the concatenation, in the analyzer's
  order, of what each analysis contributes: the generator's output, in the
  generator's order, for an analysis that passes the filter and the merge, and
  nothing for an analysis that is filtered out, rejected, or for which the generator
  returns nothing.
\<close>

theorem reinflect_concatenates:
  assumes "analyzer self word = Some analyses"
    and "\<forall>a \<in> set analyses. has_required a"
    and "analyses \<noteq> [] \<longrightarrow> check_feats (db_defines (db self)) feats (map fst feats) = None"
  shows "fst (reinflect dediac_ar clitic_feats self word feats) =
           Inr (concat (map (contribution dediac_ar (generator self) word feats
                               (has_clitics feats clitic_feats)) analyses))"
proof (cases analyses)
  case Nil
  with assms(1) show ?thesis by (simp add: reinflect_def)
next
  case (Cons a rest)
  with assms(1,3) have
    "reinflect dediac_ar clitic_feats self word feats =
       analyses_loop dediac_ar (generator self) word feats (has_clitics feats clitic_feats)
         analyses [] []"
    by (simp add: reinflect_def)
  then show ?thesis
    using analyses_loop_results[OF assms(2), of dediac_ar "generator self" word feats
        "has_clitics feats clitic_feats" "[]" "[]"]
    by simp
qed

theorem reinflect_concatenates_witness:
  "fst (reinflect ex_dediac ex_clitic_feats ex_self ''ktAb'' [(''pos'', ''noun'')]) =
     Inr [(''kitAb'', [(''pos'', ''noun''), (''gen'', ''m''), (''num'', ''s''), (''cas'', ''n''),
                       (''enc0'', ''0'')]),
          (''kAtib'', [(''pos'', ''noun''), (''gen'', ''m''), (''num'', ''p'')])]"
  using reinflect_concatenates [of ex_self "''ktAb''" "[ex_kitAb, ex_kuttAb, ex_katAb]"
          "[(''pos'', ''noun'')]" ex_dediac ex_clitic_feats]
  by (simp add: ex_defs const_defs has_required_def contribution_def analysis_filter_def)

subsection \<open>C8: what reaches the generator\<close>



subsection \<open>C9: the constructor\<close>

text \<open>
  C9. Constructing a reinflector over a database whose generation flag is false
  raises \<^verbatim>\<open>ReinflectorError\<close>; no instance is returned.
\<close>

theorem init_requires_generation:
  assumes "\<not> generation (flags d)"
  shows "init CalimaStarAnalyzer CalimaStarGenerator (CalimaStarDB d) =
           Inl (ReinflectorError ''DB does not support reinflection'')
         \<and> (\<forall>r. init CalimaStarAnalyzer CalimaStarGenerator (CalimaStarDB d) \<noteq> Inr r)"
  using assms by (simp add: init_def)

theorem init_requires_generation_witness:
  "\<not> generation (flags (ex_db\<lparr>flags := \<lparr>generation = False\<rparr>\<rparr>))
   \<and> init (\<lambda>d. Inr ex_analyzer) (\<lambda>d. Inr ex_generator)
        (CalimaStarDB (ex_db\<lparr>flags := \<lparr>generation = False\<rparr>\<rparr>)) =
      Inl (ReinflectorError ''DB does not support reinflection'')
   \<and> init (\<lambda>d. Inr ex_analyzer) (\<lambda>d. Inr ex_generator) (CalimaStarDB ex_db) = Inr ex_self"
  using init_requires_generation [of "ex_db\<lparr>flags := \<lparr>generation = False\<rparr>\<rparr>"
          "\<lambda>d. Inr ex_analyzer" "\<lambda>d. Inr ex_generator :: error + gen_call generator_t"]
  by (simp add: init_def ex_db_def ex_self_def)

subsection \<open>C10: two calls with the same arguments\<close>

text \<open>
  C10. Take an analyzer and a generator that leave the heap as they find it. Then a
  call of \<^verbatim>\<open>reinflect\<close> leaves the heap as it found it: the database of the
  instance, the dictionary passed as \<^verbatim>\<open>feats\<close> and the state of the two
  collaborators are unchanged. A second call with the same word on the heap the
  first call left returns the same list, or raises the same exception, whatever
  the order in which each call iterates \<^verbatim>\<open>_CLITIC_FEATS\<close>. And the outcome is the
  one of the method computed from the database, the given features and the answers
  of the two collaborators in that heap.
\<close>

theorem reinflect_st_repeatable:
  assumes "\<And>w h. snd (analyze w h) = h"
    and "\<And>lm gf h. snd (generate lm gf h) = h"
    and "set order1 = CLITIC_FEATS" and "set order2 = CLITIC_FEATS"
  shows "snd (reinflect_st dediac_ar order1 analyze generate word h) = h
         \<and> fst (reinflect_st dediac_ar order2 analyze generate word
                  (snd (reinflect_st dediac_ar order1 analyze generate word h))) =
             fst (reinflect_st dediac_ar order1 analyze generate word h)
         \<and> fst (reinflect_st dediac_ar order1 analyze generate word h) =
             fst (reinflect dediac_ar order1
                    \<lparr>db = self_db h, analyzer = (\<lambda>w. fst (analyze w h)),
                     generator = (\<lambda>lm gf. fst (generate lm gf h))\<rparr> word (feats_obj h))"
proof -
  note ro1 = reinflect_st_read_only[OF assms(1,2), where dediac_ar = dediac_ar
      and clitic_feats = order1 and word = word and h = h]
  note ro2 = reinflect_st_read_only[OF assms(1,2), where dediac_ar = dediac_ar
      and clitic_feats = order2 and word = word and h = h]
  have same: "reinflect dediac_ar order2
                   \<lparr>db = self_db h, analyzer = (\<lambda>w. fst (analyze w h)),
                    generator = (\<lambda>lm gf. fst (generate lm gf h))\<rparr> word (feats_obj h) =
              reinflect dediac_ar order1
                   \<lparr>db = self_db h, analyzer = (\<lambda>w. fst (analyze w h)),
                    generator = (\<lambda>lm gf. fst (generate lm gf h))\<rparr> word (feats_obj h)"
    by (rule reinflect_order_independent[OF assms(4,3)])
  from ro1 have s1: "snd (reinflect_st dediac_ar order1 analyze generate word h) = h" by simp
  show ?thesis
    unfolding s1 using ro1 ro2 same by simp
qed

theorem reinflect_st_repeatable_witness:
  "reinflect_st ex_dediac ex_clitic_feats ex_analyze_st ex_generate_st ''ktAb'' ex_heap =
     (Inr [(''kitAb'', [(''pos'', ''noun''), (''gen'', ''m''), (''num'', ''s''), (''cas'', ''n''),
                        (''enc0'', ''0'')]),
           (''kAtib'', [(''pos'', ''noun''), (''gen'', ''m''), (''num'', ''p'')])], ex_heap)
   \<and> fst (reinflect_st ex_dediac [''prc3'', ''prc1'', ''enc0'', ''prc2'', ''prc0'']
            ex_analyze_st ex_generate_st ''ktAb''
            (snd (reinflect_st ex_dediac ex_clitic_feats ex_analyze_st ex_generate_st ''ktAb'' ex_heap))) =
      Inr [(''kitAb'', [(''pos'', ''noun''), (''gen'', ''m''), (''num'', ''s''), (''cas'', ''n''),
                        (''enc0'', ''0'')]),
           (''kAtib'', [(''pos'', ''noun''), (''gen'', ''m''), (''num'', ''p'')])]"
proof -
  have a: "\<And>w h. snd (ex_analyze_st w h) = h" by (simp add: ex_analyze_st_def)
  have g: "\<And>lm gf h. snd (ex_generate_st lm gf h) = h" by (simp add: ex_generate_st_def)
  have 1: "set ex_clitic_feats = CLITIC_FEATS"
    by (auto simp: CLITIC_FEATS_def ex_clitic_feats_def)
  have 2: "set [''prc3'', ''prc1'', ''enc0'', ''prc2'', ''prc0''] = CLITIC_FEATS"
    by (auto simp: CLITIC_FEATS_def)
  have first: "reinflect_st ex_dediac ex_clitic_feats ex_analyze_st ex_generate_st ''ktAb'' ex_heap =
     (Inr [(''kitAb'', [(''pos'', ''noun''), (''gen'', ''m''), (''num'', ''s''), (''cas'', ''n''),
                        (''enc0'', ''0'')]),
           (''kAtib'', [(''pos'', ''noun''), (''gen'', ''m''), (''num'', ''p'')])], ex_heap)"
    by (simp add: reinflect_st_def ex_analyze_st_def ex_generate_st_def ex_heap_def ex_defs
          const_defs analysis_filter_def)
  from reinflect_st_repeatable[where analyze = ex_analyze_st and generate = ex_generate_st
      and dediac_ar = ex_dediac and word = "''ktAb''" and h = ex_heap, OF a g 1 2] first
  show ?thesis by simp
qed

end
